theory Spec2Isabelle
  imports Complex_Main "HOL-Library.Word"
begin

section \<open>JavaScript strings\<close>

text \<open>
  A JavaScript string is a sequence of 16-bit UTF-16 code units. Source literals are
  plain ASCII and are written through \<open>js\<close>.
\<close>

type_synonym jsstring = "16 word list"

definition js :: "string \<Rightarrow> jsstring" where
  "js s = map of_char s"

text \<open>
  \<open>String.prototype.trim\<close> removes, at both ends, the code units that ECMAScript
  calls WhiteSpace or LineTerminator: TAB, LF, VT, FF, CR, SP, NBSP, U+1680,
  U+2000..U+200A, U+2028, U+2029, U+202F, U+205F, U+3000 and U+FEFF.
\<close>

definition is_whitespace :: "16 word \<Rightarrow> bool" where
  "is_whitespace c =
     ((0x0009 \<le> c \<and> c \<le> 0x000D) \<or> c = 0x0020 \<or> c = 0x00A0 \<or> c = 0x1680 \<or>
      (0x2000 \<le> c \<and> c \<le> 0x200A) \<or> c = 0x2028 \<or> c = 0x2029 \<or> c = 0x202F \<or>
      c = 0x205F \<or> c = 0x3000 \<or> c = 0xFEFF)"

definition trim :: "jsstring \<Rightarrow> jsstring" where
  "trim s = rev (dropWhile is_whitespace (rev (dropWhile is_whitespace s)))"

text \<open>
  \<open>s.substring(a, b)\<close> for non-negative integer arguments: both are clamped to the
  length and swapped when \<open>a > b\<close>.
\<close>

definition substring :: "jsstring \<Rightarrow> nat \<Rightarrow> nat \<Rightarrow> jsstring" where
  "substring s a b =
     (let a' = min a (length s); b' = min b (length s);
          lo = min a' b'; hi = max a' b'
      in take (hi - lo) (drop lo s))"

section \<open>The regular expressions of the classifier\<close>

text \<open>
  Every pattern of \<open>analyzeBarcodeType\<close> has the shape \<open>^C{n}$\<close> for a character class
  \<open>C\<close>: the matcher consumes exactly \<open>n\<close> code units of the class and then requires
  the end of the input. Without the \<open>u\<close> flag, \<open>\d\<close> is \<open>[0-9]\<close>, and \<open>[0-9A-F]\<close> under
  the \<open>i\<close> flag is \<open>[0-9A-Fa-f]\<close> (a code unit above 127 is never folded to ASCII).
\<close>

definition is_digit :: "16 word \<Rightarrow> bool" where
  "is_digit c = (0x30 \<le> c \<and> c \<le> 0x39)"

definition is_hex_i :: "16 word \<Rightarrow> bool" where
  "is_hex_i c = (is_digit c \<or> (0x41 \<le> c \<and> c \<le> 0x46) \<or> (0x61 \<le> c \<and> c \<le> 0x66))"

fun regex_exactly :: "(16 word \<Rightarrow> bool) \<Rightarrow> nat \<Rightarrow> jsstring \<Rightarrow> bool" where
  "regex_exactly cls 0 s = (s = [])"
| "regex_exactly cls (Suc n) [] = False"
| "regex_exactly cls (Suc n) (c # cs) = (cls c \<and> regex_exactly cls n cs)"

section \<open>Numbers of the checksum code\<close>

text \<open>
  The checksum functions compute on small integers, except that \<open>parseInt\<close> yields NaN
  on a code unit that is not a decimal digit and on \<open>undefined\<close> (an index past the end).
  A number is an \<open>int option\<close>, \<open>None\<close> being NaN; NaN absorbs arithmetic, fails every
  comparison and is not \<open>===\<close> to anything.
\<close>

type_synonym jsnum = "int option"

definition parseInt_at :: "jsstring \<Rightarrow> nat \<Rightarrow> jsnum" where
  "parseInt_at s i =
     (if i < length s \<and> is_digit (s ! i) then Some (uint (s ! i) - 48) else None)"

definition js_add :: "jsnum \<Rightarrow> jsnum \<Rightarrow> jsnum" where
  "js_add a b = (case (a, b) of (Some x, Some y) \<Rightarrow> Some (x + y) | _ \<Rightarrow> None)"

definition js_sub :: "jsnum \<Rightarrow> jsnum \<Rightarrow> jsnum" where
  "js_sub a b = (case (a, b) of (Some x, Some y) \<Rightarrow> Some (x - y) | _ \<Rightarrow> None)"

definition js_mul :: "jsnum \<Rightarrow> jsnum \<Rightarrow> jsnum" where
  "js_mul a b = (case (a, b) of (Some x, Some y) \<Rightarrow> Some (x * y) | _ \<Rightarrow> None)"

text \<open>\<open>a % b\<close> takes the sign of the dividend; a zero divisor gives NaN.\<close>

definition js_rem :: "jsnum \<Rightarrow> jsnum \<Rightarrow> jsnum" where
  "js_rem a b =
     (case (a, b) of
        (Some x, Some y) \<Rightarrow>
          if y = 0 then None
          else if x < 0 then Some (- ((- x) mod \<bar>y\<bar>)) else Some (x mod \<bar>y\<bar>)
      | _ \<Rightarrow> None)"

definition js_gt :: "jsnum \<Rightarrow> jsnum \<Rightarrow> bool" where
  "js_gt a b = (case (a, b) of (Some x, Some y) \<Rightarrow> x > y | _ \<Rightarrow> False)"

definition js_strict_eq :: "jsnum \<Rightarrow> jsnum \<Rightarrow> bool" where
  "js_strict_eq a b = (case (a, b) of (Some x, Some y) \<Rightarrow> x = y | _ \<Rightarrow> False)"

section \<open>Checksum validators\<close>

text \<open>The loop of \<open>validateIMEIChecksum\<close>: \<open>for (let i = 0; i < 14; i++)\<close>.\<close>

function imei_loop :: "jsstring \<Rightarrow> nat \<Rightarrow> jsnum \<Rightarrow> jsnum" where
  "imei_loop imei i sumv =
     (if i < 14 then
        let digit = parseInt_at imei i;
            digit = (if i mod 2 = 1 then
                       let digit = js_mul digit (Some 2)
                       in if js_gt digit (Some 9) then js_sub digit (Some 9) else digit
                     else digit)
        in imei_loop imei (i + 1) (js_add sumv digit)
      else sumv)"
  by pat_completeness auto
termination
  by (relation "measure (\<lambda>(imei, i, sumv). 14 - i)") auto

definition validateIMEIChecksum :: "jsstring \<Rightarrow> bool" where
  "validateIMEIChecksum imei =
     (let sumv = imei_loop imei 0 (Some 0);
          checkDigit = js_rem (js_sub (Some 10) (js_rem sumv (Some 10))) (Some 10)
      in js_strict_eq checkDigit (parseInt_at imei 14))"

text \<open>
  The loops of \<open>validateUPCChecksum\<close> and \<open>validateEAN13Checksum\<close> have the same body
  and differ in their bound only (11 and 12).
\<close>

function weighted_loop :: "nat \<Rightarrow> jsstring \<Rightarrow> nat \<Rightarrow> jsnum \<Rightarrow> jsnum" where
  "weighted_loop n code i sumv =
     (if i < n then
        let digit = parseInt_at code i
        in weighted_loop n code (i + 1)
             (js_add sumv (if i mod 2 = 0 then digit else js_mul digit (Some 3)))
      else sumv)"
  by pat_completeness auto
termination
  by (relation "measure (\<lambda>(n, code, i, sumv). n - i)") auto

definition validateUPCChecksum :: "jsstring \<Rightarrow> bool" where
  "validateUPCChecksum upc =
     (let sumv = weighted_loop 11 upc 0 (Some 0);
          checkDigit = js_rem (js_sub (Some 10) (js_rem sumv (Some 10))) (Some 10)
      in js_strict_eq checkDigit (parseInt_at upc 11))"

definition validateEAN13Checksum :: "jsstring \<Rightarrow> bool" where
  "validateEAN13Checksum ean =
     (let sumv = weighted_loop 12 ean 0 (Some 0);
          checkDigit = js_rem (js_sub (Some 10) (js_rem sumv (Some 10))) (Some 10)
      in js_strict_eq checkDigit (parseInt_at ean 12))"

section \<open>Vendor lookup and classification\<close>

definition vendors :: "(jsstring \<times> jsstring) list" where
  "vendors =
     [(js ''01'', js ''Apple''), (js ''35'', js ''Samsung''),
      (js ''86'', js ''Huawei''), (js ''99'', js ''Xiaomi'')]"

text \<open>
  \<open>vendors[key] || 'Unknown'\<close>: a missing key gives \<open>undefined\<close>, which is falsy, as is
  the empty string. The key has at most two code units, so no inherited property of
  \<open>Object.prototype\<close> is ever found.
\<close>

definition getIMEIVendor :: "jsstring \<Rightarrow> jsstring" where
  "getIMEIVendor imei =
     (let tac = substring imei 0 8
      in case map_of vendors (substring tac 0 2) of
           None \<Rightarrow> js ''Unknown''
         | Some v \<Rightarrow> if v = [] then js ''Unknown'' else v)"

record barcode_info =
  btype :: jsstring
  isValid :: bool
  vendor :: jsstring
  checksum :: bool

definition analyzeBarcodeType :: "jsstring \<Rightarrow> barcode_info" where
  "analyzeBarcodeType text =
     (let cleanText = trim text in
      if regex_exactly is_digit 15 cleanText then
        \<lparr>btype = js ''IMEI'', isValid = True, vendor = getIMEIVendor cleanText,
         checksum = validateIMEIChecksum cleanText\<rparr>
      else if regex_exactly is_hex_i 14 cleanText then
        \<lparr>btype = js ''MEID'', isValid = True, vendor = js ''Unknown'', checksum = True\<rparr>
      else if regex_exactly is_digit 12 cleanText then
        \<lparr>btype = js ''UPC-A'', isValid = True, vendor = js ''Product'',
         checksum = validateUPCChecksum cleanText\<rparr>
      else if regex_exactly is_digit 8 cleanText then
        \<lparr>btype = js ''UPC-E'', isValid = True, vendor = js ''Product'', checksum = True\<rparr>
      else if regex_exactly is_digit 13 cleanText then
        \<lparr>btype = js ''EAN-13'', isValid = True, vendor = js ''Product'',
         checksum = validateEAN13Checksum cleanText\<rparr>
      else
        \<lparr>btype = js ''Unknown'', isValid = False, vendor = js ''Unknown'', checksum = False\<rparr>)"

section \<open>Values, objects and the application state\<close>

text \<open>
  The values that reach the scan log: what the decoder adapter builds, what the
  classifier returns and what \<open>JSON.parse\<close> can produce. An object is a map from
  property names to values. None of them carries a function, a getter or NaN.
\<close>

datatype jsval =
    Undefined
  | Null
  | Bool bool
  | Num rat
  | Str jsstring
  | Arr "jsval list"
  | Obj "jsstring \<Rightarrow> jsval option"

datatype error = TypeError | SyntaxError | StorageError

text \<open>
  Reading a property \<open>v.k\<close>. It throws on \<open>undefined\<close> and \<open>null\<close>. The model reads
  the properties \<open>text\<close> and \<open>id\<close> only, which no prototype supplies: on a boolean, a
  number, a string or an array the read gives \<open>undefined\<close>.
\<close>

fun get_prop :: "jsval \<Rightarrow> jsstring \<Rightarrow> error + jsval" where
  "get_prop Undefined k = Inl TypeError"
| "get_prop Null k = Inl TypeError"
| "get_prop (Obj m) k = Inr (case m k of None \<Rightarrow> Undefined | Some v \<Rightarrow> v)"
| "get_prop v k = Inr Undefined"

text \<open>
  The fields of the scanner object that the modelled methods read or write.
  \<open>duplicateHandling\<close> is \<open>settings.duplicateHandling\<close>; it comes from a form field or
  from stored JSON, so it is any value. \<open>currentUser\<close> is \<open>null\<close> or a user name;
  \<open>sessionId\<close> is \<open>undefined\<close> until \<open>getSessionId\<close> assigns a string.
\<close>

record app =
  scanData :: jsval
  duplicateCount :: int
  totalScans :: int
  duplicateHandling :: jsval
  currentUser :: "jsstring option"
  sessionId :: "jsstring option"

section \<open>Duplicate guard\<close>

text \<open>
  \<open>items.some(item => item.text === text)\<close>: left to right, stopping at the first
  hit; reading \<open>.text\<close> of \<open>null\<close> throws. \<open>text\<close> is a string, so \<open>===\<close> holds exactly
  for the same string value.
\<close>

fun some_text_eq :: "jsval list \<Rightarrow> jsstring \<Rightarrow> error + bool" where
  "some_text_eq [] text = Inr False"
| "some_text_eq (item # items) text =
     (case get_prop item (js ''text'') of
        Inl e \<Rightarrow> Inl e
      | Inr v \<Rightarrow> if v = Str text then Inr True else some_text_eq items text)"

text \<open>
  A method returns its result, or the exception it throws, together with the state it
  leaves. \<open>this.scanData.some\<close> is a function only when \<open>scanData\<close> is an array.
\<close>

definition isDuplicate :: "jsstring \<Rightarrow> app \<Rightarrow> (error + bool) \<times> app" where
  "isDuplicate text st =
     (if duplicateHandling st = Str (js ''allow'') then (Inr False, st)
      else (case scanData st of
              Arr items \<Rightarrow> (some_text_eq items text, st)
            | _ \<Rightarrow> (Inl TypeError, st)))"

section \<open>Scan log\<close>

text \<open>
  \<open>addScanResults\<close> pushes each barcode and counts it. It then saves to local storage
  (inside its own \<open>try\<close>) and redraws the result list; neither touches the fields of
  \<open>app\<close>, and they are left out.
\<close>

fun addScanResults :: "jsval list \<Rightarrow> app \<Rightarrow> (error + unit) \<times> app" where
  "addScanResults [] st = (Inr (), st)"
| "addScanResults (barcode # barcodes) st =
     (case scanData st of
        Arr items \<Rightarrow>
          addScanResults barcodes
            (st\<lparr>scanData := Arr (items @ [barcode]), totalScans := totalScans st + 1\<rparr>)
      | _ \<Rightarrow> (Inl TypeError, st))"

text \<open>\<open>items.filter(item => item.id !== id)\<close>, for a string \<open>id\<close>.\<close>

fun filter_id_ne :: "jsval list \<Rightarrow> jsstring \<Rightarrow> error + jsval list" where
  "filter_id_ne [] id' = Inr []"
| "filter_id_ne (item # items) id' =
     (case get_prop item (js ''id'') of
        Inl e \<Rightarrow> Inl e
      | Inr v \<Rightarrow>
          (case filter_id_ne items id' of
             Inl e \<Rightarrow> Inl e
           | Inr kept \<Rightarrow> Inr (if v \<noteq> Str id' then item # kept else kept)))"

text \<open>
  \<open>deleteResult\<close> asks \<open>confirm('Delete this scan result?')\<close> first; \<open>confirmed\<close> is the
  answer of that dialog. The result list calls it with the id as a string literal.
\<close>

definition deleteResult :: "jsstring \<Rightarrow> bool \<Rightarrow> app \<Rightarrow> (error + unit) \<times> app" where
  "deleteResult id' confirmed st =
     (if confirmed then
        (case scanData st of
           Arr items \<Rightarrow>
             (case filter_id_ne items id' of
                Inl e \<Rightarrow> (Inl e, st)
              | Inr kept \<Rightarrow> (Inr (), st\<lparr>scanData := Arr kept\<rparr>))
         | _ \<Rightarrow> (Inl TypeError, st))
      else (Inr (), st))"

text \<open>
  \<open>loadScanData\<close>: \<open>saved\<close> is what \<open>localStorage.getItem\<close> returns (\<open>null\<close> or a
  string) or throws, and \<open>JSON_parse\<close> is the built-in parser, which throws on text
  that is not JSON. The empty string is falsy. The \<open>catch\<close> covers both calls.
\<close>

definition loadScanData ::
  "(jsstring \<Rightarrow> error + jsval) \<Rightarrow> error + jsstring option \<Rightarrow> app \<Rightarrow> app" where
  "loadScanData JSON_parse saved st =
     (case saved of
        Inl e \<Rightarrow> st\<lparr>scanData := Arr []\<rparr>
      | Inr None \<Rightarrow> st\<lparr>scanData := Arr []\<rparr>
      | Inr (Some s) \<Rightarrow>
          if s = [] then st\<lparr>scanData := Arr []\<rparr>
          else (case JSON_parse s of
                  Inl e \<Rightarrow> st\<lparr>scanData := Arr []\<rparr>
                | Inr v \<Rightarrow> st\<lparr>scanData := v\<rparr>))"

section \<open>Processing detections\<close>

text \<open>Decimal rendering of a non-negative integer, as a template literal prints it.\<close>

fun decimal :: "nat \<Rightarrow> jsstring" where
  "decimal n = (if n < 10 then [of_nat (48 + n)]
                else decimal (n div 10) @ [of_nat (48 + n mod 10)])"

text \<open>
  \<open>getSessionId\<close>: an unset or empty \<open>sessionId\<close> is falsy and is replaced by
  \<open>`${this.currentUser}_${Date.now()}`\<close>; \<open>now\<close> is the clock reading.
\<close>

definition getSessionId :: "nat \<Rightarrow> app \<Rightarrow> jsstring \<times> app" where
  "getSessionId now st =
     (let fresh = (case currentUser st of None \<Rightarrow> js ''null'' | Some u \<Rightarrow> u)
                  @ js ''_'' @ decimal now
      in case sessionId st of
           None \<Rightarrow> (fresh, st\<lparr>sessionId := Some fresh\<rparr>)
         | Some sid \<Rightarrow>
             if sid = [] then (fresh, st\<lparr>sessionId := Some fresh\<rparr>) else (sid, st))"

text \<open>The classifier's result as the object literal that the source returns.\<close>

definition info_props :: "barcode_info \<Rightarrow> (jsstring \<Rightarrow> jsval option)" where
  "info_props info =
     [js ''type'' \<mapsto> Str (btype info), js ''isValid'' \<mapsto> Bool (isValid info),
      js ''vendor'' \<mapsto> Str (vendor info), js ''checksum'' \<mapsto> Bool (checksum info)]"

text \<open>
  The record literal \<open>{...result, ...barcodeInfo, user, sessionId, id}\<close>: later
  properties replace earlier ones of the same name.
\<close>

definition make_record ::
  "(jsstring \<Rightarrow> jsval option) \<Rightarrow> barcode_info \<Rightarrow> jsstring option \<Rightarrow> jsstring \<Rightarrow> jsstring \<Rightarrow> jsval" where
  "make_record result info user sid id' =
     Obj ((result ++ info_props info)
            (js ''user'' \<mapsto> (case user of None \<Rightarrow> Null | Some u \<Rightarrow> Str u),
             js ''sessionId'' \<mapsto> Str sid,
             js ''id'' \<mapsto> Str id'))"

text \<open>
  The loop of \<open>processDetectedBarcodes\<close>. \<open>generateId\<close> draws on the clock and on
  \<open>Math.random\<close>: \<open>gen k\<close> is the id its \<open>k\<close>-th call returns. \<open>result.text.trim()\<close>
  throws unless \<open>result.text\<close> is a string, which only an object can supply. Sounds and
  the duplicate warning are left out.
\<close>

fun process_loop ::
  "(nat \<Rightarrow> jsstring) \<Rightarrow> nat \<Rightarrow> jsval list \<Rightarrow> jsval list \<Rightarrow> nat \<Rightarrow> app
   \<Rightarrow> (error + jsval list) \<times> app" where
  "process_loop gen now [] validBarcodes k st = (Inr validBarcodes, st)"
| "process_loop gen now (result # results) validBarcodes k st =
     (case result of
        Obj props \<Rightarrow>
          (case props (js ''text'') of
             Some (Str text) \<Rightarrow>
               let barcodeInfo = analyzeBarcodeType text in
               if isValid barcodeInfo then
                 (case isDuplicate text st of
                    (Inl e, st1) \<Rightarrow> (Inl e, st1)
                  | (Inr True, st1) \<Rightarrow>
                      process_loop gen now results validBarcodes k
                        (st1\<lparr>duplicateCount := duplicateCount st1 + 1\<rparr>)
                  | (Inr False, st1) \<Rightarrow>
                      let (sid, st2) = getSessionId now st1
                      in process_loop gen now results
                           (validBarcodes @
                              [make_record props barcodeInfo (currentUser st1) sid (gen k)])
                           (Suc k) st2)
               else process_loop gen now results validBarcodes k st
           | _ \<Rightarrow> (Inl TypeError, st))
      | _ \<Rightarrow> (Inl TypeError, st))"

text \<open>
  After the loop the accepted records are appended in one call. Overlays, statistics
  and the optional sync to the spreadsheet follow; they do not write the fields of
  \<open>app\<close> and are left out.
\<close>

definition processDetectedBarcodes ::
  "(nat \<Rightarrow> jsstring) \<Rightarrow> nat \<Rightarrow> jsval list \<Rightarrow> app \<Rightarrow> (error + unit) \<times> app" where
  "processDetectedBarcodes gen now results st =
     (case process_loop gen now results [] 0 st of
        (Inl e, st1) \<Rightarrow> (Inl e, st1)
      | (Inr validBarcodes, st1) \<Rightarrow>
          if length validBarcodes > 0 then addScanResults validBarcodes st1
          else (Inr (), st1))"

section \<open>The classifier as the specification words it\<close>

text \<open>
  The specification describes shapes by length and character class, the vendor by a
  prefix table and the checksums by weighted digit sums. \<open>digit_at s i\<close> is the decimal
  value of the digit at 0-indexed position \<open>i\<close>.
\<close>

definition digit_at :: "jsstring \<Rightarrow> nat \<Rightarrow> int" where
  "digit_at s i = uint (s ! i) - 48"

definition luhn_adjust :: "nat \<Rightarrow> int \<Rightarrow> int" where
  "luhn_adjust i d = (if odd i then (if 2 * d > 9 then 2 * d - 9 else 2 * d) else d)"

definition imei_spec_sum :: "jsstring \<Rightarrow> int" where
  "imei_spec_sum s = (\<Sum>i\<leftarrow>[0..<14]. luhn_adjust i (digit_at s i))"

definition imei_spec_valid :: "jsstring \<Rightarrow> bool" where
  "imei_spec_valid s = ((10 - imei_spec_sum s mod 10) mod 10 = digit_at s 14)"

definition weight_1_3 :: "nat \<Rightarrow> int \<Rightarrow> int" where
  "weight_1_3 i d = (if even i then d else 3 * d)"

definition weighted_spec_sum :: "nat \<Rightarrow> jsstring \<Rightarrow> int" where
  "weighted_spec_sum n s = (\<Sum>i\<leftarrow>[0..<n]. weight_1_3 i (digit_at s i))"

definition upc_spec_valid :: "jsstring \<Rightarrow> bool" where
  "upc_spec_valid s = ((10 - weighted_spec_sum 11 s mod 10) mod 10 = digit_at s 11)"

definition ean13_spec_valid :: "jsstring \<Rightarrow> bool" where
  "ean13_spec_valid s = ((10 - weighted_spec_sum 12 s mod 10) mod 10 = digit_at s 12)"

definition decimal_digits :: "nat \<Rightarrow> jsstring \<Rightarrow> bool" where
  "decimal_digits n s = (length s = n \<and> list_all is_digit s)"

definition hex_digits :: "nat \<Rightarrow> jsstring \<Rightarrow> bool" where
  "hex_digits n s = (length s = n \<and> list_all is_hex_i s)"

definition vendor_of_prefix :: "jsstring \<Rightarrow> jsstring" where
  "vendor_of_prefix p =
     (if p = js ''01'' then js ''Apple''
      else if p = js ''35'' then js ''Samsung''
      else if p = js ''86'' then js ''Huawei''
      else if p = js ''99'' then js ''Xiaomi''
      else js ''Unknown'')"

definition classify :: "jsstring \<Rightarrow> barcode_info" where
  "classify rawText =
     (let t = trim rawText in
      if decimal_digits 15 t then
        \<lparr>btype = js ''IMEI'', isValid = True, vendor = vendor_of_prefix (take 2 t),
         checksum = imei_spec_valid t\<rparr>
      else if hex_digits 14 t then
        \<lparr>btype = js ''MEID'', isValid = True, vendor = js ''Unknown'', checksum = True\<rparr>
      else if decimal_digits 12 t then
        \<lparr>btype = js ''UPC-A'', isValid = True, vendor = js ''Product'',
         checksum = upc_spec_valid t\<rparr>
      else if decimal_digits 8 t then
        \<lparr>btype = js ''UPC-E'', isValid = True, vendor = js ''Product'', checksum = True\<rparr>
      else if decimal_digits 13 t then
        \<lparr>btype = js ''EAN-13'', isValid = True, vendor = js ''Product'',
         checksum = ean13_spec_valid t\<rparr>
      else
        \<lparr>btype = js ''Unknown'', isValid = False, vendor = js ''Unknown'', checksum = False\<rparr>)"

section \<open>Records, detections and stored texts\<close>

text \<open>
  A scan record is an object. A detection is what the decoder adapter hands over: an
  object whose \<open>text\<close> is a string. \<open>accepted st result\<close> is the condition under which
  the loop of \<open>processDetectedBarcodes\<close> builds a record for \<open>result\<close>: the classifier
  calls it valid and \<open>isDuplicate\<close> answers false on the log of \<open>st\<close>.
  \<open>stored_texts\<close> reads the \<open>text\<close> of every entry of the log.
\<close>

definition is_object :: "jsval \<Rightarrow> bool" where
  "is_object v = (case v of Obj m \<Rightarrow> True | _ \<Rightarrow> False)"

definition is_detection :: "jsval \<Rightarrow> bool" where
  "is_detection result = (case get_prop result (js ''text'') of Inr (Str t) \<Rightarrow> True | _ \<Rightarrow> False)"

definition accepted :: "app \<Rightarrow> jsval \<Rightarrow> bool" where
  "accepted st result =
     (case get_prop result (js ''text'') of
        Inr (Str t) \<Rightarrow> isValid (analyzeBarcodeType t) \<and> fst (isDuplicate t st) = Inr False
      | _ \<Rightarrow> False)"

definition stored_texts :: "app \<Rightarrow> (error + jsval) list" where
  "stored_texts st =
     (case scanData st of Arr items \<Rightarrow> map (\<lambda>r. get_prop r (js ''text'')) items | _ \<Rightarrow> [])"

section \<open>Sample data\<close>

text \<open>
  A stored log of one entry that has an \<open>id\<close> and nothing else, and a stand-in for
  \<open>JSON.parse\<close> that is right on that text and on text that is not JSON.
\<close>

definition stored_fixture :: jsstring where
  \<open>stored_fixture = js ''[{"id":"a1"}]''\<close>

definition parse_fixture :: "jsstring \<Rightarrow> error + jsval" where
  "parse_fixture s =
     (if s = stored_fixture then Inr (Arr [Obj [js ''id'' \<mapsto> Str (js ''a1'')]])
      else Inl SyntaxError)"

text \<open>
  A session with an empty log, the ids that \<open>generateId\<close> is taken to return, a
  detection whose text starts with a space, and two records.
\<close>

definition sample_ids :: "nat \<Rightarrow> jsstring" where
  "sample_ids k = js ''m2x9q'' @ decimal k"

definition sample_detection :: jsval where
  "sample_detection =
     Obj [js ''text'' \<mapsto> Str (js '' 036000291452''), js ''format'' \<mapsto> Num 14,
          js ''timestamp'' \<mapsto> Num 1730000000000]"

definition empty_session :: app where
  "empty_session =
     \<lparr>scanData = Arr [], duplicateCount = 0, totalScans = 0,
      duplicateHandling = Str (js ''block''), currentUser = Some (js ''alice''),
      sessionId = None\<rparr>"

definition first_scan :: jsval where
  "first_scan =
     Obj [js ''text'' \<mapsto> Str (js ''036000291452''), js ''id'' \<mapsto> Str (js ''m2x9q0'')]"

definition second_scan :: jsval where
  "second_scan =
     Obj [js ''text'' \<mapsto> Str (js ''4006381333931''), js ''id'' \<mapsto> Str (js ''m2x9q1'')]"

definition one_scan :: app where
  "one_scan = empty_session\<lparr>scanData := Arr [first_scan], totalScans := 1\<rparr>"

section \<open>The loops compute the weighted sums\<close>

declare imei_loop.simps [simp del] weighted_loop.simps [simp del] decimal.simps [simp del]

lemma regex_exactly_iff: "regex_exactly cls n s \<longleftrightarrow> length s = n \<and> list_all cls s"
proof (induction n arbitrary: s)
  case 0
  then show ?case by auto
next
  case (Suc n)
  then show ?case by (cases s) auto
qed

lemma digit_at_range: "is_digit c \<Longrightarrow> 0 \<le> uint c - 48 \<and> uint c - 48 \<le> 9"
  by (simp add: is_digit_def word_le_def)

lemma parseInt_at_digit:
  "i < length s \<Longrightarrow> list_all is_digit s \<Longrightarrow> parseInt_at s i = Some (digit_at s i)"
  by (simp add: parseInt_at_def digit_at_def list_all_length)

lemma digit_at_nonneg: "i < length s \<Longrightarrow> list_all is_digit s \<Longrightarrow> 0 \<le> digit_at s i"
  using digit_at_range [of "s ! i"] by (simp add: digit_at_def list_all_length)

lemma js_add_assoc_Some: "js_add (js_add sumv (Some a)) (Some b) = js_add sumv (Some (a + b))"
  by (cases sumv) (simp_all add: js_add_def)

lemma js_add_zero: "js_add sumv (Some 0) = sumv"
  by (cases sumv) (simp_all add: js_add_def)

lemma imei_loop_step:
  assumes "i < 14" "i < length imei" "list_all is_digit imei"
  shows "imei_loop imei i sumv =
         imei_loop imei (Suc i) (js_add sumv (Some (luhn_adjust i (digit_at imei i))))"
proof -
  have p: "parseInt_at imei i = Some (digit_at imei i)"
    using assms by (simp add: parseInt_at_digit)
  have o: "(i mod 2 = Suc 0) = odd i" "(i mod 2 = 0) = even i" by presburger+
  show ?thesis
    using assms(1)
    by (subst imei_loop.simps)
       (simp add: p o Let_def luhn_adjust_def js_mul_def js_gt_def js_sub_def mult.commute)
qed

lemma imei_loop_sum:
  assumes "list_all is_digit imei" "14 \<le> length imei"
  shows "n = 14 - i \<Longrightarrow>
         imei_loop imei i sumv =
         js_add sumv (Some (\<Sum>k\<leftarrow>[i..<14]. luhn_adjust k (digit_at imei k)))"
proof (induction n arbitrary: i sumv)
  case 0
  then have "\<not> i < 14" by simp
  then show ?case
    by (subst imei_loop.simps) (simp add: js_add_zero)
next
  case (Suc n)
  then have lt: "i < 14" and n: "n = 14 - Suc i" by simp_all
  have u: "[i..<14] = i # [Suc i..<14]"
    using lt by (simp add: upt_conv_Cons)
  have "imei_loop imei i sumv =
        imei_loop imei (Suc i) (js_add sumv (Some (luhn_adjust i (digit_at imei i))))"
    using lt assms by (intro imei_loop_step) simp_all
  also have "\<dots> = js_add (js_add sumv (Some (luhn_adjust i (digit_at imei i))))
                     (Some (\<Sum>k\<leftarrow>[Suc i..<14]. luhn_adjust k (digit_at imei k)))"
    by (rule Suc.IH [OF n])
  finally show ?case by (simp add: u js_add_assoc_Some)
qed

lemma luhn_adjust_nonneg: "0 \<le> d \<Longrightarrow> 0 \<le> luhn_adjust i d"
  by (simp add: luhn_adjust_def)

lemma imei_spec_sum_nonneg:
  assumes "list_all is_digit s" "14 \<le> length s"
  shows "0 \<le> imei_spec_sum s"
  unfolding imei_spec_sum_def
  by (rule sum_list_nonneg) (use assms in \<open>auto intro!: luhn_adjust_nonneg digit_at_nonneg\<close>)

lemma check_digit_value:
  "0 \<le> t \<Longrightarrow>
   js_rem (js_sub (Some 10) (js_rem (Some t) (Some 10))) (Some 10) = Some ((10 - t mod 10) mod 10)"
  by (simp add: js_rem_def js_sub_def) 

lemma validateIMEIChecksum_spec:
  assumes "length s = 15" "list_all is_digit s"
  shows "validateIMEIChecksum s = imei_spec_valid s"
proof -
  have l: "imei_loop s 0 (Some 0) = Some (imei_spec_sum s)"
    using imei_loop_sum [OF assms(2), of 14 0 "Some 0"] assms(1)
    by (simp add: imei_spec_sum_def js_add_def)
  have nn: "0 \<le> imei_spec_sum s"
    using assms by (simp add: imei_spec_sum_nonneg)
  have p: "parseInt_at s 14 = Some (digit_at s 14)"
    using assms by (simp add: parseInt_at_digit)
  show ?thesis
    by (simp add: validateIMEIChecksum_def l check_digit_value [OF nn] p
        js_strict_eq_def imei_spec_valid_def)
qed

lemma weighted_loop_step:
  assumes "i < n" "i < length code" "list_all is_digit code"
  shows "weighted_loop n code i sumv =
         weighted_loop n code (Suc i) (js_add sumv (Some (weight_1_3 i (digit_at code i))))"
proof -
  have p: "parseInt_at code i = Some (digit_at code i)"
    using assms by (simp add: parseInt_at_digit)
  have o: "(i mod 2 = 0) = even i" by presburger
  show ?thesis
    using assms(1)
    by (subst weighted_loop.simps)
       (simp add: p o Let_def weight_1_3_def js_mul_def mult.commute)
qed

lemma weighted_loop_sum:
  assumes "list_all is_digit code" "n \<le> length code"
  shows "m = n - i \<Longrightarrow>
         weighted_loop n code i sumv =
         js_add sumv (Some (\<Sum>k\<leftarrow>[i..<n]. weight_1_3 k (digit_at code k)))"
proof (induction m arbitrary: i sumv)
  case 0
  then have "\<not> i < n" by simp
  then show ?case
    by (subst weighted_loop.simps) (simp add: js_add_zero)
next
  case (Suc m)
  then have lt: "i < n" and m: "m = n - Suc i" by simp_all
  have u: "[i..<n] = i # [Suc i..<n]"
    using lt by (simp add: upt_conv_Cons)
  have "weighted_loop n code i sumv =
        weighted_loop n code (Suc i) (js_add sumv (Some (weight_1_3 i (digit_at code i))))"
    using lt assms by (intro weighted_loop_step) simp_all
  also have "\<dots> = js_add (js_add sumv (Some (weight_1_3 i (digit_at code i))))
                     (Some (\<Sum>k\<leftarrow>[Suc i..<n]. weight_1_3 k (digit_at code k)))"
    by (rule Suc.IH [OF m])
  finally show ?case by (simp add: u js_add_assoc_Some)
qed

lemma weighted_spec_sum_nonneg:
  assumes "list_all is_digit s" "n \<le> length s"
  shows "0 \<le> weighted_spec_sum n s"
  unfolding weighted_spec_sum_def
  by (rule sum_list_nonneg) (use assms in \<open>auto simp: weight_1_3_def intro!: digit_at_nonneg\<close>)

lemma weighted_check:
  assumes "length s = Suc n" "list_all is_digit s"
  shows "js_strict_eq
           (js_rem (js_sub (Some 10) (js_rem (weighted_loop n s 0 (Some 0)) (Some 10))) (Some 10))
           (parseInt_at s n)
         = ((10 - weighted_spec_sum n s mod 10) mod 10 = digit_at s n)"
proof -
  have l: "weighted_loop n s 0 (Some 0) = Some (weighted_spec_sum n s)"
    using weighted_loop_sum [OF assms(2), of n n 0 "Some 0"] assms(1)
    by (simp add: weighted_spec_sum_def js_add_def)
  have nn: "0 \<le> weighted_spec_sum n s"
    using assms by (simp add: weighted_spec_sum_nonneg)
  have p: "parseInt_at s n = Some (digit_at s n)"
    using assms by (simp add: parseInt_at_digit)
  show ?thesis
    by (simp add: l check_digit_value [OF nn] p js_strict_eq_def)
qed

section \<open>Shapes, vendor and trimming\<close>

lemma validateUPCChecksum_spec:
  "length s = 12 \<Longrightarrow> list_all is_digit s \<Longrightarrow> validateUPCChecksum s = upc_spec_valid s"
  using weighted_check [of s 11] by (simp add: validateUPCChecksum_def upc_spec_valid_def)

lemma validateEAN13Checksum_spec:
  "length s = 13 \<Longrightarrow> list_all is_digit s \<Longrightarrow> validateEAN13Checksum s = ean13_spec_valid s"
  using weighted_check [of s 12] by (simp add: validateEAN13Checksum_def ean13_spec_valid_def)

lemma getIMEIVendor_prefix: "getIMEIVendor imei = vendor_of_prefix (take 2 imei)"
proof -
  have k: "substring (substring imei 0 8) 0 2 = take 2 imei"
    by (simp add: substring_def Let_def min_def)
  show ?thesis
    unfolding getIMEIVendor_def Let_def k
    by (simp add: vendors_def vendor_of_prefix_def js_def)
qed

lemma digit_not_whitespace: "is_digit c \<Longrightarrow> \<not> is_whitespace c"
  by (auto simp: is_digit_def is_whitespace_def word_le_def)

lemma trim_id: "s \<noteq> [] \<Longrightarrow> \<not> is_whitespace (hd s) \<Longrightarrow> \<not> is_whitespace (last s) \<Longrightarrow> trim s = s"
  by (cases s) (simp_all add: trim_def dropWhile_eq_Nil_conv hd_rev dropWhile_append3 last_rev
         hd_dropWhile split: if_splits, metis dropWhile_eq_self_iff hd_rev rev_is_Nil_conv rev_rev_ident list.distinct(1))

lemma trim_digits: "list_all is_digit s \<Longrightarrow> trim s = s"
proof (cases "s = []")
  case True
  then show ?thesis by (simp add: trim_def)
next
  case False
  assume "list_all is_digit s"
  with False have "is_digit (hd s)" "is_digit (last s)"
    by (simp_all add: list_all_iff)
  with False show ?thesis
    by (intro trim_id) (simp_all add: digit_not_whitespace)
qed

section \<open>Claims about the classifier\<close>

text \<open>
  C1. For every input string, \<open>analyzeBarcodeType\<close> trims the input and then tests the
  trimmed value in this order, returning at the first match: 15 decimal digits give
  IMEI with the vendor of the two-digit prefix table (default Unknown) and the IMEI
  checksum; 14 hexadecimal characters in either case give MEID, vendor Unknown,
  checksum true; 12 decimal digits give UPC-A, vendor Product, the UPC-A checksum;
  8 decimal digits give UPC-E, vendor Product, checksum true; 13 decimal digits give
  EAN-13, vendor Product, the EAN-13 checksum; anything else gives Unknown, not valid,
  vendor Unknown, checksum false. The five matched shapes are valid whatever the
  checksum says. \<open>classify\<close> is that description.
\<close>

theorem analyzeBarcodeType_classify: "analyzeBarcodeType text = classify text"
  by (simp add: analyzeBarcodeType_def classify_def Let_def regex_exactly_iff
      decimal_digits_def hex_digits_def getIMEIVendor_prefix validateIMEIChecksum_spec
      validateUPCChecksum_spec validateEAN13Checksum_spec)

text \<open>
  C2. For every string of exactly 15 decimal digits, the checksum that
  \<open>analyzeBarcodeType\<close> reports is true if and only if, summing the digits at positions
  0..13 with every odd-position digit doubled and 9 subtracted from a doubled value
  above 9, the value (10 - (sum mod 10)) mod 10 equals the digit at position 14.
\<close>

theorem imei_checksum_luhn:
  assumes "length s = 15" and "list_all is_digit s"
  shows "checksum (analyzeBarcodeType s) =
         ((10 - (\<Sum>i\<leftarrow>[0..<14].
                    if odd i then (if 2 * digit_at s i > 9 then 2 * digit_at s i - 9
                                   else 2 * digit_at s i)
                    else digit_at s i) mod 10) mod 10
          = digit_at s 14)"
  using assms
  by (simp add: analyzeBarcodeType_def Let_def trim_digits regex_exactly_iff
      validateIMEIChecksum_spec imei_spec_valid_def imei_spec_sum_def luhn_adjust_def)

theorem imei_checksum_luhn_witness:
  "length (js ''356938035643809'') = 15 \<and> list_all is_digit (js ''356938035643809'') \<and>
   checksum (analyzeBarcodeType (js ''356938035643809'')) \<and>
   length (js ''356938035643801'') = 15 \<and> list_all is_digit (js ''356938035643801'') \<and>
   \<not> checksum (analyzeBarcodeType (js ''356938035643801''))"
proof -
  let ?a = "js ''356938035643809''" and ?b = "js ''356938035643801''"
  have a: "length ?a = 15" "list_all is_digit ?a"
    by (simp_all add: js_def is_digit_def)
  have b: "length ?b = 15" "list_all is_digit ?b"
    by (simp_all add: js_def is_digit_def)
  have va: "(10 - (\<Sum>i\<leftarrow>[0..<14].
                    if odd i then (if 2 * digit_at ?a i > 9 then 2 * digit_at ?a i - 9
                                   else 2 * digit_at ?a i)
                    else digit_at ?a i) mod 10) mod 10 = digit_at ?a 14"
    by code_simp
  have vb: "(10 - (\<Sum>i\<leftarrow>[0..<14].
                    if odd i then (if 2 * digit_at ?b i > 9 then 2 * digit_at ?b i - 9
                                   else 2 * digit_at ?b i)
                    else digit_at ?b i) mod 10) mod 10 \<noteq> digit_at ?b 14"
    by code_simp
  have "checksum (analyzeBarcodeType ?a)"
    using imei_checksum_luhn [OF a] va by blast
  moreover have "\<not> checksum (analyzeBarcodeType ?b)"
    using imei_checksum_luhn [OF b] vb by blast
  ultimately show ?thesis
    using a b by blast
qed

text \<open>
  C3. For every string of exactly 12 decimal digits, the UPC-A checksum is reported
  valid if and only if (10 - (S mod 10)) mod 10 equals the digit at position 11, where
  S sums the digits at positions 0..10, weighted 1 at even and 3 at odd 0-indexed
  positions; and for every string of exactly 13 decimal digits, the EAN-13 checksum
  uses the same weights over positions 0..11 and compares with the digit at
  position 12.
\<close>

theorem upc_ean13_checksum_weighted:
  assumes "length u = 12" and "list_all is_digit u"
    and "length e = 13" and "list_all is_digit e"
  shows "checksum (analyzeBarcodeType u) =
           ((10 - (\<Sum>i\<leftarrow>[0..<11]. if even i then digit_at u i else 3 * digit_at u i) mod 10)
              mod 10 = digit_at u 11)
       \<and> checksum (analyzeBarcodeType e) =
           ((10 - (\<Sum>i\<leftarrow>[0..<12]. if even i then digit_at e i else 3 * digit_at e i) mod 10)
              mod 10 = digit_at e 12)"
  using assms
  by (simp add: analyzeBarcodeType_def Let_def trim_digits regex_exactly_iff
      validateUPCChecksum_spec validateEAN13Checksum_spec upc_spec_valid_def
      ean13_spec_valid_def weighted_spec_sum_def weight_1_3_def)

theorem upc_ean13_checksum_weighted_witness:
  "length (js ''036000291458'') = 12 \<and> list_all is_digit (js ''036000291458'') \<and>
   length (js ''4006381333931'') = 13 \<and> list_all is_digit (js ''4006381333931'') \<and>
   checksum (analyzeBarcodeType (js ''036000291458'')) \<and>
   checksum (analyzeBarcodeType (js ''4006381333931''))"
proof -
  let ?u = "js ''036000291458''" and ?e = "js ''4006381333931''"
  have u: "length ?u = 12" "list_all is_digit ?u"
    by (simp_all add: js_def is_digit_def)
  have e: "length ?e = 13" "list_all is_digit ?e"
    by (simp_all add: js_def is_digit_def)
  have vu: "(10 - (\<Sum>i\<leftarrow>[0..<11]. if even i then digit_at ?u i else 3 * digit_at ?u i) mod 10)
              mod 10 = digit_at ?u 11"
    by code_simp
  have ve: "(10 - (\<Sum>i\<leftarrow>[0..<12]. if even i then digit_at ?e i else 3 * digit_at ?e i) mod 10)
              mod 10 = digit_at ?e 12"
    by code_simp
  show ?thesis
    using upc_ean13_checksum_weighted [OF u e] vu ve u e by blast
qed

text \<open>
  C5. \<open>classify("036000291452")\<close> is said to return UPC-A with a valid checksum. The
  code returns UPC-A with the checksum false: its weights give the sum 62 and the
  check digit 8, while the last digit is 2.
\<close>

theorem upc_a_test_vector_checksum:
  "btype (analyzeBarcodeType (js ''036000291452'')) = js ''UPC-A'' \<and>
   weighted_loop 11 (js ''036000291452'') 0 (Some 0) = Some 62 \<and>
   checksum (analyzeBarcodeType (js ''036000291452'')) = False"
  by code_simp

text \<open>
  C6, as the code has it. \<open>classify("490154203237518")\<close> returns IMEI with the checksum
  reported true: the doubling-rule sum over positions 0..13 is 52, the check digit is
  (10 - 52 mod 10) mod 10 = 8, and the last digit is 8.
\<close>

theorem imei_test_vector_accepted:
  "btype (analyzeBarcodeType (js ''490154203237518'')) = js ''IMEI'' \<and>
   imei_loop (js ''490154203237518'') 0 (Some 0) = Some 52 \<and>
   (10 - (52::int) mod 10) mod 10 = 8 \<and>
   checksum (analyzeBarcodeType (js ''490154203237518'')) = True"
  by code_simp

text \<open>
  C6 as stated, with the checksum reported false from a sum of 67, does not hold.
\<close>

theorem imei_test_vector_not_rejected:
  "\<not> (btype (analyzeBarcodeType (js ''490154203237518'')) = js ''IMEI'' \<and>
      checksum (analyzeBarcodeType (js ''490154203237518'')) = False)"
  by code_simp

section \<open>The log operations on arrays of records\<close>

lemma is_object_get_prop:
  "is_object v \<Longrightarrow> \<exists>w. get_prop v k = Inr w"
  by (cases v) (simp_all add: is_object_def)

lemma some_text_eq_objects:
  "list_all is_object items \<Longrightarrow>
   some_text_eq items t = Inr (\<exists>r\<in>set items. get_prop r (js ''text'') = Inr (Str t))"
proof (induction items)
  case Nil
  then show ?case by simp
next
  case (Cons item items)
  then obtain w where w: "get_prop item (js ''text'') = Inr w"
    using is_object_get_prop [of item] by auto
  with Cons show ?case by simp
qed

lemma js_allow_block: "js ''allow'' \<noteq> js ''block''"
  by (simp add: js_def)

lemma filter_id_ne_objects:
  "list_all is_object items \<Longrightarrow>
   filter_id_ne items i = Inr (filter (\<lambda>x. get_prop x (js ''id'') \<noteq> Inr (Str i)) items)"
proof (induction items)
  case Nil
  then show ?case by simp
next
  case (Cons item items)
  then obtain w where w: "get_prop item (js ''id'') = Inr w"
    using is_object_get_prop [of item] by auto
  with Cons show ?case by simp
qed

lemma make_record_text:
  "get_prop (make_record props info user sid i) (js ''text'') = get_prop (Obj props) (js ''text'')"
  by (simp add: make_record_def info_props_def js_def map_add_def)

lemma isDuplicate_cong:
  "scanData a = scanData b \<Longrightarrow> duplicateHandling a = duplicateHandling b \<Longrightarrow>
   fst (isDuplicate t a) = fst (isDuplicate t b)"
  by (simp add: isDuplicate_def split: jsval.splits)

lemma isDuplicate_total:
  "scanData st = Arr recs \<Longrightarrow> list_all is_object recs \<Longrightarrow> \<exists>b. isDuplicate t st = (Inr b, st)"
  by (auto simp: isDuplicate_def some_text_eq_objects)

lemma getSessionId_state:
  "getSessionId now st = (sid, st') \<Longrightarrow>
   scanData st' = scanData st \<and> duplicateHandling st' = duplicateHandling st \<and>
   totalScans st' = totalScans st"
  unfolding getSessionId_def Let_def
  by (cases "sessionId st") (auto split: if_splits)

lemma process_loop_texts:
  assumes "scanData st0 = Arr recs" and "list_all is_object recs"
  shows "list_all is_detection results \<Longrightarrow>
         scanData st = scanData st0 \<Longrightarrow> duplicateHandling st = duplicateHandling st0 \<Longrightarrow>
         \<exists>new st'. process_loop gen now results valid k st = (Inr (valid @ new), st') \<and>
            scanData st' = scanData st0 \<and>
            map (\<lambda>r. get_prop r (js ''text'')) new =
              map (\<lambda>d. get_prop d (js ''text'')) (filter (accepted st0) results)"
proof (induction results arbitrary: valid k st)
  case Nil
  then show ?case by simp
next
  case (Cons result results)
  from Cons.prems(1) obtain props t where r: "result = Obj props" "props (js ''text'') = Some (Str t)"
    by (cases result) (auto simp: is_detection_def split: option.splits jsval.splits)
  have rest: "list_all is_detection results"
    using Cons.prems(1) by simp
  have gp: "get_prop result (js ''text'') = Inr (Str t)"
    using r by simp
  show ?case
  proof (cases "isValid (analyzeBarcodeType t)")
    case False
    then have acc: "\<not> accepted st0 result"
      by (simp add: accepted_def gp)
    from Cons.IH [OF rest Cons.prems(2,3), of valid k]
    show ?thesis using False acc r by simp
  next
    case True
    obtain b where b: "isDuplicate t st = (Inr b, st)"
      using isDuplicate_total [of st recs t] assms Cons.prems(2) by auto
    have b0: "fst (isDuplicate t st0) = Inr b"
      using isDuplicate_cong [OF Cons.prems(2,3), of t] b by simp
    show ?thesis
    proof (cases b)
      case dup: True
      then have acc: "\<not> accepted st0 result"
        by (simp add: accepted_def gp b0)
      let ?st = "st\<lparr>duplicateCount := duplicateCount st + 1\<rparr>"
      have "scanData ?st = scanData st0" "duplicateHandling ?st = duplicateHandling st0"
        using Cons.prems(2,3) by simp_all
      from Cons.IH [OF rest this, of valid k]
      show ?thesis using True dup acc r b by simp
    next
      case new: False
      then have acc: "accepted st0 result"
        by (simp add: accepted_def gp b0 True)
      obtain sid st2 where g: "getSessionId now st = (sid, st2)"
        by (cases "getSessionId now st")
      then have s2: "scanData st2 = scanData st0" "duplicateHandling st2 = duplicateHandling st0"
        using getSessionId_state [OF g] Cons.prems(2,3) by simp_all
      let ?rec = "make_record props (analyzeBarcodeType t) (currentUser st) sid (gen k)"
      from Cons.IH [OF rest s2, of "valid @ [?rec]" "Suc k"]
      obtain new' st' where l:
        "process_loop gen now results (valid @ [?rec]) (Suc k) st2 = (Inr ((valid @ [?rec]) @ new'), st')"
        "scanData st' = scanData st0"
        "map (\<lambda>r. get_prop r (js ''text'')) new' =
           map (\<lambda>d. get_prop d (js ''text'')) (filter (accepted st0) results)"
        by blast
      have "process_loop gen now (result # results) valid k st = (Inr (valid @ (?rec # new')), st')"
        using True new r b g l(1) by simp
      moreover have "map (\<lambda>r. get_prop r (js ''text'')) (?rec # new') =
                     map (\<lambda>d. get_prop d (js ''text'')) (filter (accepted st0) (result # results))"
        using acc l(3) r by (simp add: make_record_text)
      ultimately show ?thesis using l(2) by blast
    qed
  qed
qed

lemma addScanResults_array:
  "scanData st = Arr recs \<Longrightarrow>
   \<exists>st'. addScanResults barcodes st = (Inr (), st') \<and> scanData st' = Arr (recs @ barcodes)"
proof (induction barcodes arbitrary: st recs)
  case Nil
  then show ?case by simp
next
  case (Cons barcode barcodes)
  let ?st = "st\<lparr>scanData := Arr (recs @ [barcode]), totalScans := totalScans st + 1\<rparr>"
  have "scanData ?st = Arr (recs @ [barcode])" by simp
  from Cons.IH [OF this] show ?case
    using Cons.prems by simp
qed

section \<open>Claims about the duplicate guard and the scan log\<close>

text \<open>
  C4. For every candidate text and every log of records, \<open>isDuplicate\<close> answers false
  when the policy is \<open>allow\<close>; when the policy is \<open>block\<close> it answers true if and only
  if some record of the log has a \<open>text\<close> that is the same string as the candidate
  (code unit for code unit, nothing trimmed); and the call leaves the state, the log
  included, as it was.
\<close>

theorem isDuplicate_policy:
  "(duplicateHandling st = Str (js ''allow'') \<longrightarrow> fst (isDuplicate t st) = Inr False) \<and>
   (duplicateHandling st = Str (js ''block'') \<and> scanData st = Arr recs \<and> list_all is_object recs \<longrightarrow>
      fst (isDuplicate t st) = Inr (\<exists>r\<in>set recs. get_prop r (js ''text'') = Inr (Str t))) \<and>
   snd (isDuplicate t st) = st"
  using js_allow_block
  by (auto simp: isDuplicate_def some_text_eq_objects split: jsval.splits)

theorem isDuplicate_policy_witness:
  "duplicateHandling one_scan = Str (js ''block'') \<and> scanData one_scan = Arr [first_scan] \<and>
   list_all is_object [first_scan] \<and>
   fst (isDuplicate (js ''036000291452'') one_scan) = Inr True \<and>
   fst (isDuplicate (js '' 036000291452'') one_scan) = Inr False \<and>
   duplicateHandling (one_scan\<lparr>duplicateHandling := Str (js ''allow'')\<rparr>) = Str (js ''allow'') \<and>
   fst (isDuplicate (js ''036000291452'') (one_scan\<lparr>duplicateHandling := Str (js ''allow'')\<rparr>))
     = Inr False"
  using isDuplicate_policy [of one_scan "js ''036000291452''" "[first_scan]"]
        isDuplicate_policy [of one_scan "js '' 036000291452''" "[first_scan]"]
        isDuplicate_policy [of "one_scan\<lparr>duplicateHandling := Str (js ''allow'')\<rparr>"
                               "js ''036000291452''" "[first_scan]"]
  by (simp add: one_scan_def empty_session_def first_scan_def is_object_def js_def)

text \<open>
  C7. For every log of records and every record whose id is not in the log, appending
  the record with \<open>addScanResults\<close> and then deleting by its id leaves the log as it
  was before both calls, order included. \<open>deleteResult\<close> deletes once its confirmation
  dialog is accepted, which is the second argument. The counter \<open>totalScans\<close> keeps the
  increment of the append.
\<close>

theorem append_then_delete_restores_log:
  assumes "scanData st = Arr recs" and "list_all is_object recs"
    and "get_prop r (js ''id'') = Inr (Str i)"
    and "\<forall>x\<in>set recs. get_prop x (js ''id'') \<noteq> Inr (Str i)"
  shows "\<exists>st1 st2. addScanResults [r] st = (Inr (), st1) \<and>
                   deleteResult i True st1 = (Inr (), st2) \<and>
                   scanData st2 = Arr recs \<and>
                   st2 = st\<lparr>totalScans := totalScans st + 1\<rparr>"
proof -
  let ?st1 = "st\<lparr>scanData := Arr (recs @ [r]), totalScans := totalScans st + 1\<rparr>"
  have a: "addScanResults [r] st = (Inr (), ?st1)"
    using assms(1) by simp
  have o: "is_object r"
    using assms(3) by (cases r) (simp_all add: is_object_def)
  have f: "filter_id_ne (recs @ [r]) i = Inr recs"
    using assms(2,3,4) o by (simp add: filter_id_ne_objects filter_id_conv)
  have d: "deleteResult i True ?st1 = (Inr (), st\<lparr>totalScans := totalScans st + 1\<rparr>)"
    using assms(1) by (simp add: deleteResult_def f)
  show ?thesis
    using a d assms(1) by simp
qed

theorem append_then_delete_restores_log_witness:
  "scanData one_scan = Arr [first_scan] \<and> list_all is_object [first_scan] \<and>
   get_prop second_scan (js ''id'') = Inr (Str (js ''m2x9q1'')) \<and>
   get_prop first_scan (js ''id'') \<noteq> Inr (Str (js ''m2x9q1'')) \<and>
   scanData (snd (addScanResults [second_scan] one_scan)) = Arr [first_scan, second_scan] \<and>
   scanData (snd (deleteResult (js ''m2x9q1'') True (snd (addScanResults [second_scan] one_scan))))
     = Arr [first_scan]"
proof -
  have h: "scanData one_scan = Arr [first_scan]" "list_all is_object [first_scan]"
    "get_prop second_scan (js ''id'') = Inr (Str (js ''m2x9q1''))"
    "\<forall>x\<in>set [first_scan]. get_prop x (js ''id'') \<noteq> Inr (Str (js ''m2x9q1''))"
    by (simp_all add: one_scan_def first_scan_def second_scan_def is_object_def js_def)
  from append_then_delete_restores_log [OF h]
  obtain st1 st2 where s: "addScanResults [second_scan] one_scan = (Inr (), st1)"
    "deleteResult (js ''m2x9q1'') True st1 = (Inr (), st2)" "scanData st2 = Arr [first_scan]"
    by blast
  have a: "scanData (snd (addScanResults [second_scan] one_scan)) = Arr [first_scan, second_scan]"
    using h(1) by simp
  have d: "scanData (snd (deleteResult (js ''m2x9q1'') True
                            (snd (addScanResults [second_scan] one_scan)))) = Arr [first_scan]"
    using s by (simp only: snd_conv)
  show ?thesis
    using a d h by simp
qed

text \<open>
  C8, as the code has it. For every batch of detections processed on a log of records,
  the records appended are those of the accepted detections, in order, and each one
  stores the \<open>text\<close> of its detection as the decoder gave it. The trimmed text is used
  inside \<open>analyzeBarcodeType\<close> only.
\<close>

theorem stored_text_is_raw_text:
  assumes "scanData st = Arr recs" and "list_all is_object recs"
    and "list_all is_detection results"
  shows "\<exists>new st'. processDetectedBarcodes gen now results st = (Inr (), st') \<and>
           scanData st' = Arr (recs @ new) \<and>
           map (\<lambda>r. get_prop r (js ''text'')) new =
             map (\<lambda>d. get_prop d (js ''text'')) (filter (accepted st) results)"
proof -
  from process_loop_texts [OF assms(1,2,3) refl refl, of gen now "[]" 0]
  obtain new st1 where l:
    "process_loop gen now results [] 0 st = (Inr new, st1)"
    "scanData st1 = Arr recs"
    "map (\<lambda>r. get_prop r (js ''text'')) new =
       map (\<lambda>d. get_prop d (js ''text'')) (filter (accepted st) results)"
    using assms(1) by auto
  show ?thesis
  proof (cases "new = []")
    case True
    then show ?thesis
      using l by (auto simp: processDetectedBarcodes_def)
  next
    case False
    from addScanResults_array [OF l(2), of new]
    obtain st' where "addScanResults new st1 = (Inr (), st')" "scanData st' = Arr (recs @ new)"
      by blast
    then show ?thesis
      using l False by (auto simp: processDetectedBarcodes_def)
  qed
qed

theorem stored_text_is_raw_text_witness:
  "scanData empty_session = Arr [] \<and> list_all is_object [] \<and>
   list_all is_detection [sample_detection] \<and> accepted empty_session sample_detection \<and>
   stored_texts (snd (processDetectedBarcodes sample_ids 1730000000000 [sample_detection]
                        empty_session))
     = [Inr (Str (js '' 036000291452''))]"
proof -
  have a: "isValid (analyzeBarcodeType (js '' 036000291452''))"
    by code_simp
  have h: "scanData empty_session = Arr []" "list_all is_object []"
    "list_all is_detection [sample_detection]"
    by (simp_all add: empty_session_def sample_detection_def is_detection_def js_def)
  have g: "get_prop sample_detection (js ''text'') = Inr (Str (js '' 036000291452''))"
    by (simp add: sample_detection_def js_def)
  have d: "isDuplicate (js '' 036000291452'') empty_session = (Inr False, empty_session)"
    by (simp add: isDuplicate_def empty_session_def js_def)
  have acc: "accepted empty_session sample_detection"
    unfolding accepted_def g by (simp add: a d)
  from stored_text_is_raw_text [OF h, of sample_ids 1730000000000]
  obtain new st' where s:
    "processDetectedBarcodes sample_ids 1730000000000 [sample_detection] empty_session = (Inr (), st')"
    "scanData st' = Arr ([] @ new)"
    "map (\<lambda>r. get_prop r (js ''text'')) new =
       map (\<lambda>d. get_prop d (js ''text'')) (filter (accepted empty_session) [sample_detection])"
    by blast
  have "stored_texts st' = [Inr (Str (js '' 036000291452''))]"
    using s(2,3) acc g by (simp add: stored_texts_def)
  then show ?thesis
    using s(1) h acc by simp
qed

text \<open>
  C8 as stated, with the record storing the trimmed text, does not hold: a detection
  whose text starts with a space is accepted as UPC-A and stored with the space.
\<close>

theorem stored_text_not_trimmed:
  "fst (processDetectedBarcodes sample_ids 1730000000000 [sample_detection] empty_session)
     = Inr () \<and>
   stored_texts (snd (processDetectedBarcodes sample_ids 1730000000000 [sample_detection]
                        empty_session))
     = [Inr (Str (js '' 036000291452''))] \<and>
   stored_texts (snd (processDetectedBarcodes sample_ids 1730000000000 [sample_detection]
                        empty_session))
     \<noteq> [Inr (Str (trim (js '' 036000291452'')))]"
proof -
  have a: "isValid (analyzeBarcodeType (js '' 036000291452''))"
    by code_simp
  have t: "trim (js '' 036000291452'') = js ''036000291452''"
    by code_simp
  have d: "isDuplicate (js '' 036000291452'') empty_session = (Inr False, empty_session)"
    by (simp add: isDuplicate_def empty_session_def js_def)
  obtain sid st2 where g: "getSessionId 1730000000000 empty_session = (sid, st2)"
    by (cases "getSessionId 1730000000000 empty_session")
  then have s2: "scanData st2 = Arr []"
    using getSessionId_state [OF g] by (simp add: empty_session_def)
  have l: "process_loop sample_ids 1730000000000 [sample_detection] [] 0 empty_session =
           (Inr [make_record [js ''text'' \<mapsto> Str (js '' 036000291452''), js ''format'' \<mapsto> Num 14,
                   js ''timestamp'' \<mapsto> Num 1730000000000]
                   (analyzeBarcodeType (js '' 036000291452''))
                   (currentUser empty_session) sid (sample_ids 0)], st2)"
    using a d g by (simp add: sample_detection_def) (simp add: js_def)
  show ?thesis
    unfolding processDetectedBarcodes_def l
    using s2 by (simp add: stored_texts_def make_record_text t) (simp add: js_def)
qed

text \<open>
  C9, as the code has it. \<open>loadScanData\<close> checks no record: when the stored text is not
  empty and parses, the parsed value becomes the log as it is; when parsing throws, when
  reading the storage throws, and when nothing or the empty text is stored, the log
  becomes empty. There is no error for a malformed record.
\<close>

theorem loadScanData_no_validation:
  "(s \<noteq> [] \<and> JSON_parse s = Inr v \<longrightarrow>
      loadScanData JSON_parse (Inr (Some s)) st = st\<lparr>scanData := v\<rparr>) \<and>
   (JSON_parse s = Inl e \<longrightarrow>
      loadScanData JSON_parse (Inr (Some s)) st = st\<lparr>scanData := Arr []\<rparr>) \<and>
   loadScanData JSON_parse (Inr (Some [])) st = st\<lparr>scanData := Arr []\<rparr> \<and>
   loadScanData JSON_parse (Inr None) st = st\<lparr>scanData := Arr []\<rparr> \<and>
   loadScanData JSON_parse (Inl e') st = st\<lparr>scanData := Arr []\<rparr>"
  by (simp add: loadScanData_def)

theorem loadScanData_no_validation_witness:
  "stored_fixture \<noteq> [] \<and>
   parse_fixture stored_fixture = Inr (Arr [Obj [js ''id'' \<mapsto> Str (js ''a1'')]]) \<and>
   scanData (loadScanData parse_fixture (Inr (Some stored_fixture)) one_scan)
     = Arr [Obj [js ''id'' \<mapsto> Str (js ''a1'')]] \<and>
   parse_fixture (js ''[{'') = Inl SyntaxError \<and>
   scanData (loadScanData parse_fixture (Inr (Some (js ''[{''))) one_scan) = Arr []"
  using loadScanData_no_validation
          [where s = stored_fixture and JSON_parse = parse_fixture and st = one_scan
             and v = "Arr [Obj [js ''id'' \<mapsto> Str (js ''a1'')]]"]
        loadScanData_no_validation
          [where s = "js ''[{''" and JSON_parse = parse_fixture and st = one_scan
             and e = SyntaxError]
  by (simp add: parse_fixture_def stored_fixture_def js_def)

text \<open>
  C9 as stated, with a record that lacks required fields rejected and skipped, does not
  hold: a stored record without \<open>text\<close> is in the log after loading.
\<close>

theorem malformed_record_is_loaded:
  "scanData (loadScanData parse_fixture (Inr (Some stored_fixture)) empty_session) \<noteq> Arr [] \<and>
   stored_texts (loadScanData parse_fixture (Inr (Some stored_fixture)) empty_session)
     = [Inr Undefined]"
  by (simp add: loadScanData_def parse_fixture_def stored_fixture_def stored_texts_def js_def)

text \<open>
  C10. For every value of \<open>settings.duplicateHandling\<close> other than the string \<open>allow\<close>,
  values outside \<open>block\<close> and \<open>allow\<close> included, \<open>isDuplicate\<close> answers true if and only
  if some record of the log has a \<open>text\<close> that is the same string as the candidate; with
  the string \<open>allow\<close> it answers false.
\<close>

theorem isDuplicate_only_allow_disables:
  assumes "scanData st = Arr recs" and "list_all is_object recs"
  shows "fst (isDuplicate t st) =
         Inr (duplicateHandling st \<noteq> Str (js ''allow'') \<and>
              (\<exists>r\<in>set recs. get_prop r (js ''text'') = Inr (Str t)))"
  using assms by (simp add: isDuplicate_def some_text_eq_objects)

theorem isDuplicate_only_allow_disables_witness:
  "scanData (one_scan\<lparr>duplicateHandling := Str (js ''Allow'')\<rparr>) = Arr [first_scan] \<and>
   list_all is_object [first_scan] \<and>
   fst (isDuplicate (js ''036000291452'') (one_scan\<lparr>duplicateHandling := Str (js ''Allow'')\<rparr>))
     = Inr True \<and>
   fst (isDuplicate (js ''036000291452'') (one_scan\<lparr>duplicateHandling := Undefined\<rparr>))
     = Inr True \<and>
   fst (isDuplicate (js ''4006381333931'') (one_scan\<lparr>duplicateHandling := Undefined\<rparr>))
     = Inr False \<and>
   fst (isDuplicate (js ''036000291452'') (one_scan\<lparr>duplicateHandling := Str (js ''allow'')\<rparr>))
     = Inr False"
  using isDuplicate_only_allow_disables
          [of "one_scan\<lparr>duplicateHandling := Str (js ''Allow'')\<rparr>" "[first_scan]" "js ''036000291452''"]
        isDuplicate_only_allow_disables
          [of "one_scan\<lparr>duplicateHandling := Undefined\<rparr>" "[first_scan]" "js ''036000291452''"]
        isDuplicate_only_allow_disables
          [of "one_scan\<lparr>duplicateHandling := Undefined\<rparr>" "[first_scan]" "js ''4006381333931''"]
        isDuplicate_only_allow_disables
          [of "one_scan\<lparr>duplicateHandling := Str (js ''allow'')\<rparr>" "[first_scan]" "js ''036000291452''"]
  by (simp add: one_scan_def empty_session_def first_scan_def is_object_def js_def)

end
